theory Spec2Isabelle
  imports Main "HOL-Library.Word" "HOL-Library.Sublist" "HOL-Library.Multiset"
begin

unbundle bit_operations_syntax

section \<open>vold bootstrap (main.cpp)\<close>

text \<open>
  A shallow embedding of \<^verbatim>\<open>main.cpp\<close>: \<^verbatim>\<open>process_config\<close> (the disk-source
  configuration builder and the \<^verbatim>\<open>SDCARD=\<close> scanner), \<^verbatim>\<open>do_coldboot\<close> /
  \<^verbatim>\<open>coldboot\<close> (the uevent trigger) and the sequence of \<^verbatim>\<open>vold_main\<close>.
  Everything the code does to the outside world (calls on the volume manager, log lines,
  system calls on uevent files, property writes) is recorded, in order, in a trace of
  events; a C++ exception that nothing catches is the \<open>Inl\<close> branch of a sum.
\<close>

subsection \<open>The pieces of \<^verbatim>\<open>std::string\<close> the code uses\<close>

datatype exn = Out_of_range | Invalid_argument

text \<open>
  Positions and counts are \<^verbatim>\<open>size_t\<close>. \<^verbatim>\<open>npos\<close> is the largest \<^verbatim>\<open>size_t\<close>; it is
  written \<open>None\<close> here, both as the "not found" result of a search and as the count
  "up to the end" of \<^verbatim>\<open>substr\<close>, so that no string length has to be compared with
  \<^verbatim>\<open>SIZE_MAX\<close>.
\<close>

text \<open>\<^verbatim>\<open>s.find(pat)\<close>: the position of the first occurrence of \<open>pat\<close> in \<open>s\<close>.\<close>

fun str_find :: "string \<Rightarrow> string \<Rightarrow> nat option" where
  "str_find [] pat = (if pat = [] then Some 0 else None)"
| "str_find (c # cs) pat =
     (if prefix pat (c # cs) then Some 0 else map_option Suc (str_find cs pat))"

text \<open>\<^verbatim>\<open>s.find_first_of(chars)\<close>: the position of the first character of \<open>s\<close> that is in \<open>chars\<close>.\<close>

fun find_first_of :: "string \<Rightarrow> string \<Rightarrow> nat option" where
  "find_first_of [] chars = None"
| "find_first_of (c # cs) chars =
     (if c \<in> set chars then Some 0 else map_option Suc (find_first_of cs chars))"

text \<open>
  \<^verbatim>\<open>s.substr(pos, n)\<close>: throws \<^verbatim>\<open>std::out_of_range\<close> when \<open>pos\<close> is beyond the size, and
  clamps the count to what is left.
\<close>

definition substr :: "string \<Rightarrow> nat \<Rightarrow> nat option \<Rightarrow> exn + string" where
  "substr s pos n =
     (if pos > length s then Inl Out_of_range
      else Inr (case n of None \<Rightarrow> drop pos s | Some k \<Rightarrow> take k (drop pos s)))"

text \<open>\<^verbatim>\<open>pos - 1\<close> on a \<^verbatim>\<open>size_t\<close>: zero wraps around to \<^verbatim>\<open>SIZE_MAX\<close>, which is \<^verbatim>\<open>npos\<close>.\<close>

definition size_t_pred :: "nat \<Rightarrow> nat option" where
  "size_t_pred pos = (if pos = 0 then None else Some (pos - 1))"

text \<open>
  \<^verbatim>\<open>isdigit\<close> and \<^verbatim>\<open>isspace\<close> of the C locale; both are false on bytes above 127.
\<close>

definition isdigit :: "char \<Rightarrow> bool" where
  "isdigit c = (48 \<le> (of_char c :: nat) \<and> (of_char c :: nat) \<le> 57)"

definition isspace :: "char \<Rightarrow> bool" where
  "isspace c = ((of_char c :: nat) = 32 \<or> (9 \<le> (of_char c :: nat) \<and> (of_char c :: nat) \<le> 13))"

definition digit_of :: "char \<Rightarrow> int" where
  "digit_of c = int (of_char c) - 48"

text \<open>
  \<^verbatim>\<open>std::stoi(str)\<close> (base 10): skips leading white space, takes an optional sign and
  the longest run of digits after it; throws \<^verbatim>\<open>std::invalid_argument\<close> when there is no
  digit and \<^verbatim>\<open>std::out_of_range\<close> when the value is not an \<^verbatim>\<open>int\<close> (32 bits).
\<close>

fun strtol_digits :: "int \<Rightarrow> string \<Rightarrow> int" where
  "strtol_digits acc [] = acc"
| "strtol_digits acc (c # cs) =
     (if isdigit c then strtol_digits (10 * acc + digit_of c) cs else acc)"

definition INT_MAX :: int where
  "INT_MAX = 2147483647"

definition INT_MIN :: int where
  "INT_MIN = - 2147483648"

definition stoi :: "string \<Rightarrow> exn + int" where
  "stoi str =
     (let s1 = dropWhile isspace str;
          neg = (case s1 of [] \<Rightarrow> False | c # _ \<Rightarrow> c = CHR ''-'');
          s2 = (case s1 of [] \<Rightarrow> [] | c # cs \<Rightarrow> if c = CHR ''-'' \<or> c = CHR ''+'' then cs else s1)
      in case s2 of
           [] \<Rightarrow> Inl Invalid_argument
         | d # _ \<Rightarrow>
             if \<not> isdigit d then Inl Invalid_argument
             else let v = (if neg then - strtol_digits 0 s2 else strtol_digits 0 s2)
                  in if v < INT_MIN \<or> INT_MAX < v then Inl Out_of_range else Inr v)"

subsection \<open>Data: fstab records, disk sources, events\<close>

text \<open>
  One record of \<^verbatim>\<open>struct fstab\<close>, with the fields \<^verbatim>\<open>process_config\<close> reads.
  \<^verbatim>\<open>fs_type\<close> and \<^verbatim>\<open>fs_options\<close> may be null pointers (\<open>None\<close>). The four predicates
  \<^verbatim>\<open>fs_mgr_is_voldmanaged\<close>, \<^verbatim>\<open>fs_mgr_is_encryptable\<close>, \<^verbatim>\<open>fs_mgr_is_noemulatedsd\<close>
  and \<^verbatim>\<open>fs_mgr_is_nonremovable\<close> belong to the fs_mgr library; what they answer for a
  record is a field of the record. The table \<^verbatim>\<open>recs[0 .. num_entries - 1]\<close> is a list.
\<close>

record fstab_rec =
  blk_device :: string
  fs_type :: "string option"
  fs_options :: "string option"
  label :: string
  partnum :: int
  fs_mgr_is_voldmanaged :: bool
  fs_mgr_is_encryptable :: bool
  fs_mgr_is_noemulatedsd :: bool
  fs_mgr_is_nonremovable :: bool

text \<open>The arguments of the \<^verbatim>\<open>VolumeManager::DiskSource\<close> constructor, in its order.\<close>

datatype DiskSource =
  DiskSource (mSysPattern: string) (mNickname: string) (mPartNum: int)
             (mFlags: "32 word") (mFsType: string) (mMntOpts: string)

text \<open>
  The constants of \<^verbatim>\<open>android::vold::Disk::Flags\<close> are declared in \<^verbatim>\<open>Disk.h\<close>; the
  functions below take them as a parameter.
\<close>

record disk_flags =
  kAdoptable :: "32 word"
  kDefaultPrimary :: "32 word"
  kNonRemovable :: "32 word"

datatype severity = VERBOSE | INFO | ERROR

datatype log_arg = Str string | Num int

datatype listener = CommandListener | CryptCommandListener

text \<open>
  A uevent file is named by the path of its directory below the root of the walk (the
  names of the entries descended into, outermost first).
\<close>

datatype event =
    LOG severity "log_arg list"
  | PLOG severity "log_arg list"
  | AddDiskSource DiskSource
  | SetDebug bool
  | VmStart
  | NmStart
  | Openat_uevent "string list" bool
  | Write_uevent "string list" string bool
  | StartListener listener
  | Property_set string string

text \<open>
  The state \<^verbatim>\<open>process_config\<close> works on: the caller's variable behind the pointer
  \<^verbatim>\<open>has_adoptable\<close>, and the trace so far.
\<close>

record pstate =
  has_adoptable :: bool
  trace :: "event list"

definition emit :: "event \<Rightarrow> pstate \<Rightarrow> pstate" where
  "emit e s = s\<lparr>trace := trace s @ [e]\<rparr>"

text \<open>The rules handed to the volume manager, in the order of the calls.\<close>

fun disk_sources :: "event list \<Rightarrow> DiskSource list" where
  "disk_sources [] = []"
| "disk_sources (AddDiskSource r # es) = r # disk_sources es"
| "disk_sources (_ # es) = disk_sources es"

subsection \<open>\<^verbatim>\<open>process_config\<close>\<close>

text \<open>What \<^verbatim>\<open>process_config\<close> reads from outside.\<close>

record config_env =
  DefaultFstabPath :: string
  read_fstab :: "fstab_rec list option"
  default_primary_prop :: bool
  read_cmdline :: "string option"
  access_X_OK :: "string \<Rightarrow> bool"

text \<open>
  \<open>read_fstab\<close> is the result of \<^verbatim>\<open>fs_mgr_read_fstab\<close> on the default fstab path
  (\<open>None\<close> for a null pointer),
  \<open>default_primary_prop\<close> the property \<^verbatim>\<open>vold.debug.default_primary\<close>, \<open>read_cmdline\<close>
  the content of \<^verbatim>\<open>/proc/cmdline\<close> (\<open>None\<close> when it cannot be read), and
  \<open>access_X_OK p\<close> holds when \<^verbatim>\<open>access(p, X_OK)\<close> returns 0.
\<close>

text \<open>The body of the loop over the fstab records (lines 243 to 272).\<close>

definition fstab_entry :: "disk_flags \<Rightarrow> config_env \<Rightarrow> fstab_rec \<Rightarrow> pstate \<Rightarrow> pstate" where
  "fstab_entry K E r s =
     (if fs_mgr_is_voldmanaged r then
        let sysPattern = blk_device r;
            fstype = (case fs_type r of None \<Rightarrow> [] | Some t \<Rightarrow> t);
            mntopts = (case fs_options r of None \<Rightarrow> [] | Some t \<Rightarrow> t);
            nickname = label r;
            pn = partnum r;
            flags0 = (0 :: 32 word);
            flags1 = (if fs_mgr_is_encryptable r then flags0 OR kAdoptable K else flags0);
            s1 = (if fs_mgr_is_encryptable r then s\<lparr>has_adoptable := True\<rparr> else s);
            flags2 = (if fs_mgr_is_noemulatedsd r \<or> default_primary_prop E
                      then flags1 OR kDefaultPrimary K else flags1);
            flags3 = (if fs_mgr_is_nonremovable r then flags2 OR kNonRemovable K else flags2)
        in emit (AddDiskSource (DiskSource sysPattern nickname pn flags3 fstype mntopts)) s1
      else s)"

fun fstab_loop :: "disk_flags \<Rightarrow> config_env \<Rightarrow> fstab_rec list \<Rightarrow> pstate \<Rightarrow> pstate" where
  "fstab_loop K E [] s = s"
| "fstab_loop K E (r # rs) s = fstab_loop K E rs (fstab_entry K E r s)"

text \<open>
  The normalisation of the raw token (lines 281 to 297): the device name and the
  partition number the rule is built from.
\<close>

definition normalize_sdcard :: "(string \<Rightarrow> bool) \<Rightarrow> string \<Rightarrow> exn + (string \<times> int)" where
  "normalize_sdcard acc sdcard =
     (let pn = (- 1 :: int) in
      if \<not> acc (''/sys/block/'' @ sdcard) then
        let pos = length (dropWhile isdigit (rev sdcard)) in
        if pos \<noteq> length sdcard then
          (case substr sdcard pos None of
             Inl e \<Rightarrow> Inl e
           | Inr run \<Rightarrow>
          (case stoi run of
             Inl e \<Rightarrow> Inl e
           | Inr pn' \<Rightarrow>
          (case substr sdcard 0 (Some pos) of
             Inl e \<Rightarrow> Inl e
           | Inr sd1 \<Rightarrow>
          (case (if str_find sd1 ''mmcblk'' \<noteq> None then substr sd1 0 (size_t_pred pos)
                 else Inr sd1) of
             Inl e \<Rightarrow> Inl e
           | Inr sd2 \<Rightarrow>
          (case (if str_find sd2 ''nvme'' \<noteq> None then substr sd2 0 (size_t_pred pos)
                 else Inr sd2) of
             Inl e \<Rightarrow> Inl e
           | Inr sd3 \<Rightarrow> Inr (sd3, pn'))))))
        else Inr (sdcard, pn)
      else Inr (sdcard, pn))"

text \<open>The scan of the kernel command line (lines 275 to 306).\<close>

definition scan_cmdline :: "disk_flags \<Rightarrow> config_env \<Rightarrow> pstate \<Rightarrow> (exn + unit) \<times> pstate" where
  "scan_cmdline K E s =
     (case read_cmdline E of
        None \<Rightarrow> (Inr (), s)
      | Some path \<Rightarrow>
          (case str_find path ''SDCARD='' of
             None \<Rightarrow> (Inr (), s)
           | Some pos \<Rightarrow>
               (case substr path (pos + 7) None of
                  Inl e \<Rightarrow> (Inl e, s)
                | Inr sd0 \<Rightarrow>
                    (case substr sd0 0 (find_first_of sd0 [CHR '' '', CHR 0x0A]) of
                       Inl e \<Rightarrow> (Inl e, s)
                     | Inr sdcard \<Rightarrow>
                         if sdcard \<noteq> [] then
                           (case normalize_sdcard (access_X_OK E) sdcard of
                              Inl e \<Rightarrow> (Inl e, s)
                            | Inr (name, pn) \<Rightarrow>
                                let s1 = emit (AddDiskSource
                                           (DiskSource (''/devices/*/'' @ name) name pn
                                              (kAdoptable K) ''auto'' [])) s;
                                    s2 = s1\<lparr>has_adoptable := True\<rparr>;
                                    s3 = emit (LOG INFO [Str ''Add SDCARD='', Str name,
                                                         Str '' partnum='', Num pn]) s2
                                in (Inr (), s3))
                         else (Inr (), s)))))"

text \<open>
  \<^verbatim>\<open>process_config\<close>: \<open>Inr\<close> of the returned code, or \<open>Inl\<close> of the exception that
  leaves it.
\<close>

definition process_config :: "disk_flags \<Rightarrow> config_env \<Rightarrow> pstate \<Rightarrow> (exn + int) \<times> pstate" where
  "process_config K E s =
     (case read_fstab E of
        None \<Rightarrow> (Inr (- 1), emit (PLOG ERROR [Str ''Failed to open default fstab '',
                                             Str (DefaultFstabPath E)]) s)
      | Some recs \<Rightarrow>
          let s1 = s\<lparr>has_adoptable := False\<rparr>;
              s2 = fstab_loop K E recs s1
          in (case scan_cmdline K E s2 of
                (Inl e, s3) \<Rightarrow> (Inl e, s3)
              | (Inr _, s3) \<Rightarrow> (Inr 0, s3)))"

subsection \<open>\<^verbatim>\<open>do_coldboot\<close> and \<^verbatim>\<open>coldboot\<close>\<close>

datatype d_type =
  DT_UNKNOWN | DT_FIFO | DT_CHR | DT_DIR | DT_BLK | DT_REG | DT_LNK | DT_SOCK | DT_WHT

text \<open>
  What \<^verbatim>\<open>openat(dfd, "uevent", O_WRONLY | O_CLOEXEC)\<close> finds in a directory: nothing
  that opens, or a file; the flag says whether \<^verbatim>\<open>write\<close> on it succeeds.
\<close>

datatype uevent_file = No_uevent | Uevent bool

text \<open>
  What \<^verbatim>\<open>openat(dfd, name, O_RDONLY | O_DIRECTORY)\<close> followed by \<^verbatim>\<open>fdopendir\<close> gives for
  an entry: either call fails, or a directory stream is opened.
\<close>

datatype 'd opened = Openat_fails | Fdopendir_fails | Opened 'd

text \<open>
  An open directory stream: its uevent file, and the entries \<^verbatim>\<open>readdir\<close> returns, in
  the order it returns them, up to the first null pointer (the end of the directory or
  a read error). An entry is \<^verbatim>\<open>d_name\<close>, \<^verbatim>\<open>d_type\<close> and what opening it gives; for
  a symbolic link that is the directory the link leads to, since \<^verbatim>\<open>openat\<close> follows
  links.
\<close>

datatype dir = Dir (uevent: uevent_file) (entries: "(string \<times> d_type \<times> dir opened) list")

type_synonym dirent = "string \<times> d_type \<times> dir opened"

text \<open>\<^verbatim>\<open>de->d_name[0] == '.'\<close>; the first byte of an empty name is the terminating zero.\<close>

definition dot_name :: "string \<Rightarrow> bool" where
  "dot_name n = (case n of [] \<Rightarrow> False | c # _ \<Rightarrow> c = CHR ''.'')"

text \<open>
  Lines 193 to 199: the uevent file of the directory at path \<open>p\<close>; \<open>add_nl\<close> is the
  four bytes \<^verbatim>\<open>"add\n"\<close> written to it.
\<close>

definition add_nl :: string where
  "add_nl = [CHR ''a'', CHR ''d'', CHR ''d'', CHR 0x0A]"

definition trigger_uevent :: "string list \<Rightarrow> uevent_file \<Rightarrow> event list" where
  "trigger_uevent p u =
     (case u of
        No_uevent \<Rightarrow> [Openat_uevent p False]
      | Uevent ok \<Rightarrow> [Openat_uevent p True, Write_uevent p add_nl ok])"

text \<open>
  \<^verbatim>\<open>do_coldboot(d, lvl)\<close> on the directory at path \<open>p\<close>, and its \<^verbatim>\<open>readdir\<close> loop on
  the entries still to come. The result is the trace of the calls on uevent files.
\<close>

function do_coldboot :: "string list \<Rightarrow> dir \<Rightarrow> nat \<Rightarrow> event list"
  and readdir_loop :: "string list \<Rightarrow> dirent list \<Rightarrow> nat \<Rightarrow> event list" where
  "do_coldboot p (Dir u es) lvl = trigger_uevent p u @ readdir_loop p es lvl"
| "readdir_loop p [] lvl = []"
| "readdir_loop p ((n, ty, r) # es) lvl =
     (if dot_name n then readdir_loop p es lvl
      else if ty \<noteq> DT_DIR \<and> lvl > 0 then readdir_loop p es lvl
      else (case r of
              Openat_fails \<Rightarrow> readdir_loop p es lvl
            | Fdopendir_fails \<Rightarrow> readdir_loop p es lvl
            | Opened d2 \<Rightarrow> do_coldboot (p @ [n]) d2 (lvl + 1) @ readdir_loop p es lvl))"
  by pat_completeness auto
termination
  by (relation "measure (\<lambda>x. case x of
         Inl (p, d, lvl) \<Rightarrow> size d
       | Inr (p, es, lvl) \<Rightarrow>
           size_list (size_prod (\<lambda>_. 0) (size_prod (\<lambda>_. 0) (size_opened size))) es)")
     auto

text \<open>\<^verbatim>\<open>coldboot(path)\<close>; the argument is what \<^verbatim>\<open>opendir(path)\<close> gives.\<close>

definition coldboot :: "dir option \<Rightarrow> event list" where
  "coldboot od = (case od of None \<Rightarrow> [] | Some d \<Rightarrow> do_coldboot [] d 0)"

subsection \<open>\<^verbatim>\<open>vold_main\<close>\<close>

text \<open>
  How \<^verbatim>\<open>vold_main\<close> ends: \<^verbatim>\<open>exit\<close> with a code, the abort of a failed \<^verbatim>\<open>CHECK\<close>, an
  exception nothing catches, or \<open>Monitoring\<close>: control has reached the loop
  \<^verbatim>\<open>while(1) sleep(1000)\<close> at the end, which does nothing else and is never left.
\<close>

datatype outcome = Exit int | Abort | Uncaught exn | Monitoring

text \<open>
  What the bootstrap reads from outside. \<open>contexts_given\<close>: after \<^verbatim>\<open>getopt_long\<close> all
  four security contexts are set (the \<^verbatim>\<open>CHECK\<close>s of \<^verbatim>\<open>parse_args\<close> pass).
  \<open>vm_instance\<close>, \<open>nm_instance\<close>: the singletons exist. \<open>vm_start\<close>, \<open>nm_start\<close>,
  \<open>cl_startListener\<close>, \<open>ccl_startListener\<close>: the codes these calls return.
  \<open>stack_has_adoptable\<close>: the content of the local variable \<^verbatim>\<open>has_adoptable\<close>, which is
  declared without an initialiser. \<open>sys_block\<close>: what \<^verbatim>\<open>opendir("/sys/block")\<close> gives.
  \<open>MINIVOLD\<close>: the compile-time switch. Calls with no bearing on the control flow
  (\<^verbatim>\<open>setenv\<close>, the SELinux handle, \<^verbatim>\<open>fcntl\<close>, \<^verbatim>\<open>mkdir\<close>, \<^verbatim>\<open>klog_set_level\<close>,
  \<^verbatim>\<open>setBroadcaster\<close>) leave no event.
\<close>

record boot_env =
  IsFilesystemSupported :: "string \<Rightarrow> bool"
  contexts_given :: bool
  vm_instance :: bool
  nm_instance :: bool
  vold_debug_prop :: bool
  vm_start :: int
  config :: config_env
  stack_has_adoptable :: bool
  nm_start :: int
  sys_block :: "dir option"
  cl_startListener :: int
  ccl_startListener :: int
  MINIVOLD :: bool

definition supported :: "boot_env \<Rightarrow> string \<Rightarrow> log_arg" where
  "supported B fs = Str (if IsFilesystemSupported B fs then CHR '' '' # fs else [])"

definition vold_main :: "disk_flags \<Rightarrow> boot_env \<Rightarrow> outcome \<times> event list" where
  "vold_main K B =
     (let t0 = [LOG INFO [Str ''Vold 3.0 (the awakening) firing up''],
                LOG VERBOSE [Str ''Detected support for:'', supported B ''exfat'',
                             supported B ''ext4'', supported B ''f2fs'',
                             supported B ''iso9660'', supported B ''ntfs'',
                             supported B ''vfat'']]
      in
      if \<not> contexts_given B then (Abort, t0)
      else if \<not> vm_instance B then
        (Exit 1, t0 @ [LOG ERROR [Str ''Unable to create VolumeManager'']])
      else if \<not> nm_instance B then
        (Exit 1, t0 @ [LOG ERROR [Str ''Unable to create NetlinkManager'']])
      else
        let t1 = (if vold_debug_prop B then t0 @ [SetDebug True] else t0);
            t2 = t1 @ [VmStart]
        in
        if vm_start B \<noteq> 0 then
          (Exit 1, t2 @ [PLOG ERROR [Str ''Unable to start VolumeManager'']])
        else
          (case process_config K (config B)
                  \<lparr>has_adoptable = stack_has_adoptable B, trace = t2\<rparr> of
             (Inl e, s) \<Rightarrow> (Uncaught e, trace s)
           | (Inr rc, s) \<Rightarrow>
               let t3 = (if rc \<noteq> 0
                         then trace s @ [PLOG ERROR
                                [Str ''Error reading configuration... continuing anyways'']]
                         else trace s);
                   t4 = t3 @ [NmStart]
               in
               if nm_start B \<noteq> 0 then
                 (Exit 1, t4 @ [PLOG ERROR [Str ''Unable to start NetlinkManager'']])
               else
                 let t5 = t4 @ coldboot (sys_block B);
                     t6 = t5 @ [StartListener CommandListener]
                 in
                 if cl_startListener B \<noteq> 0 then
                   (Exit 1, t6 @ [PLOG ERROR [Str ''Unable to start CommandListener'']])
                 else
                   let t7 = (if MINIVOLD B then t6
                             else t6 @ [StartListener CryptCommandListener])
                   in
                   if \<not> MINIVOLD B \<and> ccl_startListener B \<noteq> 0 then
                     (Exit 1, t7 @ [PLOG ERROR
                                      [Str ''Unable to start CryptCommandListener'']])
                   else
                     (Monitoring,
                      t7 @ [Property_set ''vold.has_adoptable''
                              (if has_adoptable s then ''1'' else ''0'')])))"

subsection \<open>Reading the claims: auxiliary notions\<close>

text \<open>
  The number a run of decimal digits denotes, read from its last digit upwards. It is
  what "parsed as an integer" means for the partition number, stated without reference
  to \<open>stoi\<close>.
\<close>

fun decimal_lsd_first :: "string \<Rightarrow> int" where
  "decimal_lsd_first [] = 0"
| "decimal_lsd_first (c # cs) = digit_of c + 10 * decimal_lsd_first cs"

definition decimal_value :: "string \<Rightarrow> int" where
  "decimal_value ds = decimal_lsd_first (rev ds)"

text \<open>The directory a uevent event is about.\<close>

fun uevent_dir :: "event \<Rightarrow> string list option" where
  "uevent_dir (Openat_uevent p b) = Some p"
| "uevent_dir (Write_uevent p s b) = Some p"
| "uevent_dir _ = None"

text \<open>
  The directories \<^verbatim>\<open>do_coldboot\<close> ran on (each run starts with the \<^verbatim>\<open>openat\<close> of the
  uevent file), and the directories whose uevent file was written to.
\<close>

definition visited :: "event list \<Rightarrow> string list set" where
  "visited tr = {p. \<exists>b. Openat_uevent p b \<in> set tr}"

definition write_targets :: "event list \<Rightarrow> string list set" where
  "write_targets tr = {p. \<exists>s ok. Write_uevent p s ok \<in> set tr}"

text \<open>
  The same device tree under another enumeration order: \<open>f\<close> rearranges the entries
  \<^verbatim>\<open>readdir\<close> returns, in every directory of the tree.
\<close>

function reorder :: "(dirent list \<Rightarrow> dirent list) \<Rightarrow> dir \<Rightarrow> dir"
  and reorder_entries :: "(dirent list \<Rightarrow> dirent list) \<Rightarrow> dirent list \<Rightarrow> dirent list" where
  "reorder f (Dir u es) = Dir u (f (reorder_entries f es))"
| "reorder_entries f [] = []"
| "reorder_entries f ((n, ty, r) # es) =
     (n, ty, case r of Opened d2 \<Rightarrow> Opened (reorder f d2) | _ \<Rightarrow> r) # reorder_entries f es"
  by pat_completeness auto
termination
  by (relation "measure (\<lambda>x. case x of
         Inl (f, d) \<Rightarrow> size d
       | Inr (f, es) \<Rightarrow>
           size_list (size_prod (\<lambda>_. 0) (size_prod (\<lambda>_. 0) (size_opened size))) es)")
     auto


text \<open>No rule is handed over after the first call on a uevent file.\<close>

fun adds_before_uevents :: "event list \<Rightarrow> bool" where
  "adds_before_uevents [] = True"
| "adds_before_uevents (e # es) =
     (if uevent_dir e = None then adds_before_uevents es else disk_sources es = [])"

subsection \<open>Sample inputs\<close>

text \<open>A machine on which no path is accessible, and one with the single disk \<^verbatim>\<open>sda\<close>.\<close>

definition nothing_accessible :: "string \<Rightarrow> bool" where
  "nothing_accessible p = False"

definition only_sda :: "string \<Rightarrow> bool" where
  "only_sda p = (p = ''/sys/block/sda'')"

definition example_flags :: disk_flags where
  "example_flags = \<lparr>kAdoptable = 1, kDefaultPrimary = 2, kNonRemovable = 32\<rparr>"

definition example_fstab :: "fstab_rec list" where
  "example_fstab =
     [\<lparr>blk_device = ''/devices/*/usb*'', fs_type = Some ''auto'', fs_options = None,
       label = ''usbdisk'', partnum = - 1, fs_mgr_is_voldmanaged = True,
       fs_mgr_is_encryptable = True, fs_mgr_is_noemulatedsd = False,
       fs_mgr_is_nonremovable = True\<rparr>,
      \<lparr>blk_device = ''/dev/block/sda2'', fs_type = Some ''ext4'', fs_options = Some ''ro'',
       label = [], partnum = 0, fs_mgr_is_voldmanaged = False,
       fs_mgr_is_encryptable = True, fs_mgr_is_noemulatedsd = True,
       fs_mgr_is_nonremovable = True\<rparr>]"

definition cfg_no_fstab :: config_env where
  "cfg_no_fstab =
     \<lparr>DefaultFstabPath = ''/fstab.android_x86'', read_fstab = None,
      default_primary_prop = False,
      read_cmdline = Some ''quiet SDCARD=sda1 root=/dev/ram0'',
      access_X_OK = nothing_accessible\<rparr>"

definition cfg_example :: config_env where
  "cfg_example = cfg_no_fstab\<lparr>read_fstab := Some example_fstab\<rparr>"

definition cfg_no_token :: config_env where
  "cfg_no_token = cfg_example\<lparr>read_cmdline := Some ''quiet root=/dev/ram0''\<rparr>"


text \<open>A caller whose variable \<^verbatim>\<open>has_adoptable\<close> holds \<open>True\<close> before the call.\<close>

definition garbage_true :: pstate where
  "garbage_true = \<lparr>has_adoptable = True, trace = []\<rparr>"

text \<open>
  A device tree: the root without a uevent file, a dot entry, the disk \<^verbatim>\<open>sda\<close> reached
  through a symbolic link, with a partition, a link and a plain file inside, an entry
  that does not open, and a second disk.
\<close>

definition example_sda_entries :: "dirent list" where
  "example_sda_entries =
     [(''sda1'', DT_DIR, Opened (Dir (Uevent False) [])),
      (''device'', DT_LNK, Opened (Dir (Uevent True) [])),
      (''size'', DT_REG, Openat_fails)]"

definition example_entries :: "dirent list" where
  "example_entries =
     [(''.'', DT_DIR, Opened (Dir (Uevent True) [])),
      (''sda'', DT_LNK, Opened (Dir (Uevent True) example_sda_entries)),
      (''loop0'', DT_LNK, Fdopendir_fails),
      (''sr0'', DT_LNK, Opened (Dir (Uevent True) []))]"

definition example_tree :: dir where
  "example_tree = Dir No_uevent example_entries"

text \<open>A bootstrap in which every dependency is there, with and without a loadable fstab.\<close>

definition all_supported :: "string \<Rightarrow> bool" where
  "all_supported fs = True"

definition boot_example :: boot_env where
  "boot_example =
     \<lparr>IsFilesystemSupported = all_supported, contexts_given = True, vm_instance = True,
      nm_instance = True, vold_debug_prop = False, vm_start = 0, config = cfg_example,
      stack_has_adoptable = True, nm_start = 0, sys_block = Some example_tree,
      cl_startListener = 0, ccl_startListener = 0, MINIVOLD = False\<rparr>"

definition boot_no_fstab :: boot_env where
  "boot_no_fstab = boot_example\<lparr>config := cfg_no_fstab\<rparr>"

section \<open>Properties\<close>

subsection \<open>Strings and numbers\<close>

lemma str_find_None_iff: "str_find s pat = None \<longleftrightarrow> \<not> (\<exists>u v. s = u @ pat @ v)"
proof (induction s)
  case Nil
  then show ?case by simp
next
  case (Cons c cs)
  show ?case
  proof (cases "prefix pat (c # cs)")
    case True
    then obtain v where "c # cs = pat @ v" by (auto simp: prefix_def)
    then have "c # cs = [] @ pat @ v" by simp
    then have "\<exists>u v. c # cs = u @ pat @ v" by blast
    with True show ?thesis by simp
  next
    case False
    have "(\<exists>u v. c # cs = u @ pat @ v) \<longleftrightarrow> (\<exists>u v. cs = u @ pat @ v)"
    proof
      assume "\<exists>u v. c # cs = u @ pat @ v"
      then obtain u v where uv: "c # cs = u @ pat @ v" by blast
      with False have "u \<noteq> []" by (auto simp: prefix_def)
      then obtain u0 where "u = c # u0" using uv by (cases u) auto
      with uv have "cs = u0 @ pat @ v" by simp
      then show "\<exists>u v. cs = u @ pat @ v" by blast
    next
      assume "\<exists>u v. cs = u @ pat @ v"
      then obtain u v where "cs = u @ pat @ v" by blast
      then have "c # cs = (c # u) @ pat @ v" by simp
      then show "\<exists>u v. c # cs = u @ pat @ v" by blast
    qed
    with False Cons.IH show ?thesis by simp
  qed
qed



lemma decimal_lsd_first_snoc:
  "decimal_lsd_first (xs @ [c]) = decimal_lsd_first xs + 10 ^ length xs * digit_of c"
  by (induction xs) (simp_all add: algebra_simps)

lemma strtol_digits_decimal:
  "\<forall>c \<in> set ds. isdigit c \<Longrightarrow>
     strtol_digits acc ds = acc * 10 ^ length ds + decimal_value ds"
proof (induction ds arbitrary: acc)
  case Nil
  then show ?case by (simp add: decimal_value_def)
next
  case (Cons c cs)
  then have "strtol_digits acc (c # cs) = (10 * acc + digit_of c) * 10 ^ length cs + decimal_value cs"
    by simp
  also have "\<dots> = acc * 10 ^ length (c # cs) + decimal_value (c # cs)"
    by (simp add: decimal_value_def decimal_lsd_first_snoc algebra_simps)
  finally show ?case .
qed

lemma digit_not_space: "isdigit c \<Longrightarrow> \<not> isspace c \<and> c \<noteq> CHR ''-'' \<and> c \<noteq> CHR ''+''"
  by (auto simp: isdigit_def isspace_def)

lemma decimal_value_nonneg: "\<forall>c \<in> set ds. isdigit c \<Longrightarrow> 0 \<le> decimal_value ds"
  unfolding decimal_value_def
proof (induction ds rule: rev_induct)
  case Nil
  then show ?case by simp
next
  case (snoc x xs)
  then have "0 \<le> digit_of x" by (simp add: isdigit_def digit_of_def)
  with snoc show ?case by simp
qed

lemma stoi_digit_run:
  assumes "run \<noteq> []" and "\<forall>c \<in> set run. isdigit c" and "decimal_value run \<le> INT_MAX"
  shows "stoi run = Inr (decimal_value run)"
proof -
  from assms(1) obtain d ds where run: "run = d # ds" by (cases run) auto
  with assms(2) have d: "isdigit d" by simp
  then have ns: "\<not> isspace d" "d \<noteq> CHR ''-''" "d \<noteq> CHR ''+''"
    using digit_not_space by blast+
  have v: "strtol_digits 0 run = decimal_value run"
    using strtol_digits_decimal [OF assms(2), of 0] by simp
  have "INT_MIN \<le> decimal_value run"
    using decimal_value_nonneg [OF assms(2)] by (simp add: INT_MIN_def)
  with assms(3) v run d ns show ?thesis
    by (simp add: stoi_def)
qed

lemma stoi_digit_run_overflow:
  assumes "run \<noteq> []" and "\<forall>c \<in> set run. isdigit c" and "INT_MAX < decimal_value run"
  shows "stoi run = Inl Out_of_range"
proof -
  from assms(1) obtain d ds where run: "run = d # ds" by (cases run) auto
  with assms(2) have d: "isdigit d" by simp
  then have ns: "\<not> isspace d" "d \<noteq> CHR ''-''" "d \<noteq> CHR ''+''"
    using digit_not_space by blast+
  have v: "strtol_digits 0 run = decimal_value run"
    using strtol_digits_decimal [OF assms(2), of 0] by simp
  with assms(3) v run d ns show ?thesis
    by (simp add: stoi_def)
qed

lemma digit_run_pos:
  assumes "\<forall>c \<in> set run. isdigit c" and "pre = [] \<or> \<not> isdigit (last pre)"
  shows "length (dropWhile isdigit (rev (pre @ run))) = length pre"
proof -
  have "dropWhile isdigit (rev run @ rev pre) = dropWhile isdigit (rev pre)"
    by (rule dropWhile_append2) (use assms(1) in auto)
  then have "dropWhile isdigit (rev (pre @ run)) = dropWhile isdigit (rev pre)"
    by simp
  also have "\<dots> = rev pre"
    using assms(2) by (cases pre rule: rev_cases) auto
  finally show ?thesis by simp
qed

subsection \<open>The \<^verbatim>\<open>SDCARD=\<close> token\<close>

lemma normalize_partition:
  assumes "\<not> acc (''/sys/block/'' @ pre @ run)" and "run \<noteq> []"
    and "\<forall>c \<in> set run. isdigit c" and "pre = [] \<or> \<not> isdigit (last pre)"
    and "decimal_value run \<le> INT_MAX"
  shows "normalize_sdcard acc (pre @ run) =
           Inr (if (\<exists>u v. pre = u @ ''mmcblk'' @ v) \<or> (\<exists>u v. pre = u @ ''nvme'' @ v)
                then butlast pre else pre, decimal_value run)"
proof -
  have pos: "length (dropWhile isdigit (rev (pre @ run))) = length pre"
    using digit_run_pos [OF assms(3,4)] .
  have st: "stoi run = Inr (decimal_value run)"
    using stoi_digit_run [OF assms(2,3,5)] .
  have m: "(\<exists>u v. s = u @ pat @ v) \<longleftrightarrow> str_find s pat \<noteq> None" for s pat
    using str_find_None_iff [of s pat] by auto
  have ne: "pre \<noteq> []" if "str_find pre pat \<noteq> None" "pat \<noteq> []" for pat
    using that by (cases pre) auto
  have bl: "take (length pre - Suc 0) pre = butlast pre"
    by (simp add: butlast_conv_take)
  have bl2: "take (length pre - Suc 0) (butlast pre) = butlast pre"
    by simp
  have res: "normalize_sdcard acc (pre @ run) =
           Inr (if str_find pre ''mmcblk'' \<noteq> None \<or> str_find pre ''nvme'' \<noteq> None
                then butlast pre else pre, decimal_value run)"
  proof (cases "str_find pre ''mmcblk'' \<noteq> None")
    case True
    then have "pre \<noteq> []" using ne by blast
    with True assms(1,2) pos st bl bl2 show ?thesis
      by (simp add: normalize_sdcard_def substr_def size_t_pred_def)
  next
    case False
    show ?thesis
    proof (cases "str_find pre ''nvme'' \<noteq> None")
      case True
      then have "pre \<noteq> []" using ne by blast
      with True False assms(1,2) pos st bl show ?thesis
        by (simp add: normalize_sdcard_def substr_def size_t_pred_def)
    next
      case n: False
      with False assms(1,2) pos st show ?thesis
        by (simp add: normalize_sdcard_def substr_def size_t_pred_def)
    qed
  qed
  show ?thesis
    by (simp only: res m)
qed

lemmas eval_normalize = normalize_sdcard_def substr_def stoi_def isdigit_def isspace_def
  digit_of_def size_t_pred_def INT_MAX_def INT_MIN_def decimal_value_def

text \<open>
  C2, as the code has it: for a raw token \<open>pre @ run\<close> that names no accessible whole
  disk, where \<open>run\<close> is the maximal run of decimal digits at its end, is not empty and
  denotes a number no greater than \<^verbatim>\<open>INT_MAX\<close>, the partition number is the number
  \<open>run\<close> denotes and the device name is \<open>pre\<close>, without its last character when
  \<open>pre\<close> contains \<^verbatim>\<open>mmcblk\<close> or \<^verbatim>\<open>nvme\<close>. In particular \<^verbatim>\<open>mmcblk0p12\<close> gives
  \<^verbatim>\<open>mmcblk0\<close> and 12, \<^verbatim>\<open>nvme0n1p3\<close> gives \<^verbatim>\<open>nvme0n1\<close> and 3, \<^verbatim>\<open>sda1\<close> gives
  \<^verbatim>\<open>sda\<close> and 1.
\<close>

theorem sdcard_partition_normalization:
  "(\<not> acc (''/sys/block/'' @ pre @ run) \<and> run \<noteq> [] \<and> (\<forall>c \<in> set run. isdigit c)
      \<and> (pre = [] \<or> \<not> isdigit (last pre)) \<and> decimal_value run \<le> INT_MAX
    \<longrightarrow> normalize_sdcard acc (pre @ run) =
          Inr (if (\<exists>u v. pre = u @ ''mmcblk'' @ v) \<or> (\<exists>u v. pre = u @ ''nvme'' @ v)
               then butlast pre else pre, decimal_value run))
   \<and> (\<not> acc ''/sys/block/mmcblk0p12''
        \<longrightarrow> normalize_sdcard acc ''mmcblk0p12'' = Inr (''mmcblk0'', 12))
   \<and> (\<not> acc ''/sys/block/nvme0n1p3''
        \<longrightarrow> normalize_sdcard acc ''nvme0n1p3'' = Inr (''nvme0n1'', 3))
   \<and> (\<not> acc ''/sys/block/sda1'' \<longrightarrow> normalize_sdcard acc ''sda1'' = Inr (''sda'', 1))"
proof (intro conjI impI)
  assume "\<not> acc (''/sys/block/'' @ pre @ run) \<and> run \<noteq> [] \<and> (\<forall>c \<in> set run. isdigit c)
      \<and> (pre = [] \<or> \<not> isdigit (last pre)) \<and> decimal_value run \<le> INT_MAX"
  then show "normalize_sdcard acc (pre @ run) =
          Inr (if (\<exists>u v. pre = u @ ''mmcblk'' @ v) \<or> (\<exists>u v. pre = u @ ''nvme'' @ v)
               then butlast pre else pre, decimal_value run)"
    using normalize_partition [of acc pre run] by blast
next
  assume "\<not> acc ''/sys/block/mmcblk0p12''"
  then show "normalize_sdcard acc ''mmcblk0p12'' = Inr (''mmcblk0'', 12)"
    by (simp add: eval_normalize)
next
  assume "\<not> acc ''/sys/block/nvme0n1p3''"
  then show "normalize_sdcard acc ''nvme0n1p3'' = Inr (''nvme0n1'', 3)"
    by (simp add: eval_normalize)
next
  assume "\<not> acc ''/sys/block/sda1''"
  then show "normalize_sdcard acc ''sda1'' = Inr (''sda'', 1)"
    by (simp add: eval_normalize)
qed

theorem sdcard_partition_normalization_witness:
  "\<not> nothing_accessible (''/sys/block/'' @ ''mmcblk0p'' @ ''12'')
   \<and> list_all isdigit ''12'' \<and> \<not> isdigit (last ''mmcblk0p'') \<and> decimal_value ''12'' \<le> INT_MAX
   \<and> normalize_sdcard nothing_accessible (''mmcblk0p'' @ ''12'') = Inr (''mmcblk0'', 12)
   \<and> normalize_sdcard nothing_accessible ''nvme0n1p3'' = Inr (''nvme0n1'', 3)
   \<and> normalize_sdcard nothing_accessible ''sda1'' = Inr (''sda'', 1)"
proof -
  have h: "\<not> nothing_accessible (''/sys/block/'' @ ''mmcblk0p'' @ ''12'')"
    "''12'' \<noteq> []" "\<forall>c \<in> set ''12''. isdigit c" "\<not> isdigit (last ''mmcblk0p'')"
    "decimal_value ''12'' \<le> INT_MAX"
    by (simp_all add: nothing_accessible_def isdigit_def decimal_value_def digit_of_def INT_MAX_def)
  have v: "decimal_value ''12'' = 12"
    by (simp add: decimal_value_def digit_of_def)
  have "''mmcblk0p'' = [] @ ''mmcblk'' @ ''0p''" by simp
  then have c: "\<exists>u v. ''mmcblk0p'' = u @ ''mmcblk'' @ v" by blast
  have n: "\<not> nothing_accessible p" for p by (simp add: nothing_accessible_def)
  note t = sdcard_partition_normalization [of nothing_accessible "''mmcblk0p''" "''12''"]
  from t h have "normalize_sdcard nothing_accessible (''mmcblk0p'' @ ''12'') =
          Inr (if (\<exists>u v. ''mmcblk0p'' = u @ ''mmcblk'' @ v) \<or> (\<exists>u v. ''mmcblk0p'' = u @ ''nvme'' @ v)
               then butlast ''mmcblk0p'' else ''mmcblk0p'', decimal_value ''12'')"
    by blast
  with c v have r1: "normalize_sdcard nothing_accessible (''mmcblk0p'' @ ''12'') = Inr (''mmcblk0'', 12)"
    by simp
  from t n have r2: "normalize_sdcard nothing_accessible ''nvme0n1p3'' = Inr (''nvme0n1'', 3)"
    by blast
  from t n have r3: "normalize_sdcard nothing_accessible ''sda1'' = Inr (''sda'', 1)"
    by blast
  from h r1 r2 r3 show ?thesis by (simp add: list_all_iff)
qed

text \<open>
  C2 as it is stated fails where the digits denote a number beyond \<^verbatim>\<open>INT_MAX\<close>:
  \<^verbatim>\<open>std::stoi\<close> throws, and no name and no partition number come out.
\<close>

theorem sdcard_partition_overflow_counterexample:
  "\<not> nothing_accessible (''/sys/block/'' @ ''sda'' @ ''2147483648'')
   \<and> list_all isdigit ''2147483648'' \<and> \<not> isdigit (last ''sda'')
   \<and> decimal_value ''2147483648'' = 2147483648
   \<and> normalize_sdcard nothing_accessible (''sda'' @ ''2147483648'') = Inl Out_of_range
   \<and> fst (process_config example_flags
            (cfg_example\<lparr>read_cmdline := Some ''SDCARD=sda2147483648''\<rparr>) garbage_true)
       = Inl Out_of_range"
  by (simp add: eval_normalize nothing_accessible_def process_config_def scan_cmdline_def
        cfg_example_def cfg_no_fstab_def Let_def)

text \<open>
  C3: a token that names an accessible whole disk keeps its name and gets the partition
  number -1; so does a token that names none and does not end in a decimal digit.
\<close>

theorem sdcard_whole_disk:
  "(acc (''/sys/block/'' @ disk) \<longrightarrow> normalize_sdcard acc disk = Inr (disk, - 1)) \<and>
   (\<not> acc' (''/sys/block/'' @ tok) \<and> (tok = [] \<or> \<not> isdigit (last tok))
      \<longrightarrow> normalize_sdcard acc' tok = Inr (tok, - 1))"
proof -
  have "dropWhile isdigit (rev tok) = rev tok" if "tok = [] \<or> \<not> isdigit (last tok)"
    using that by (cases tok rule: rev_cases) auto
  then show ?thesis
    by (simp add: normalize_sdcard_def)
qed

theorem sdcard_whole_disk_witness:
  "only_sda (''/sys/block/'' @ ''sda'') \<and> normalize_sdcard only_sda ''sda'' = Inr (''sda'', - 1)
   \<and> \<not> nothing_accessible (''/sys/block/'' @ ''sdb'') \<and> \<not> isdigit (last ''sdb'')
   \<and> normalize_sdcard nothing_accessible ''sdb'' = Inr (''sdb'', - 1)"
proof -
  have a: "only_sda (''/sys/block/'' @ ''sda'')" by (simp add: only_sda_def)
  have b: "\<not> nothing_accessible (''/sys/block/'' @ ''sdb'')" "\<not> isdigit (last ''sdb'')"
    by (simp_all add: nothing_accessible_def isdigit_def)
  from a b sdcard_whole_disk [of only_sda "''sda''" nothing_accessible "''sdb''"]
  show ?thesis by blast
qed

subsection \<open>\<^verbatim>\<open>process_config\<close>\<close>

lemma disk_sources_append: "disk_sources (xs @ ys) = disk_sources xs @ disk_sources ys"
  by (induction xs rule: disk_sources.induct) simp_all

lemma fstab_entry_sources:
  "disk_sources (trace (fstab_entry K E r s)) =
     disk_sources (trace s) @
     (if fs_mgr_is_voldmanaged r then
        [DiskSource (blk_device r) (label r) (partnum r)
           ((if fs_mgr_is_encryptable r then kAdoptable K else 0)
            OR (if fs_mgr_is_noemulatedsd r \<or> default_primary_prop E then kDefaultPrimary K else 0)
            OR (if fs_mgr_is_nonremovable r then kNonRemovable K else 0))
           (case fs_type r of None \<Rightarrow> [] | Some t \<Rightarrow> t)
           (case fs_options r of None \<Rightarrow> [] | Some t \<Rightarrow> t)]
      else [])"
  by (simp add: fstab_entry_def emit_def disk_sources_append Let_def ac_simps)

lemma fstab_entry_adoptable:
  "has_adoptable (fstab_entry K E r s) =
     (has_adoptable s \<or> (fs_mgr_is_voldmanaged r \<and> fs_mgr_is_encryptable r))"
  by (simp add: fstab_entry_def emit_def Let_def)

lemma fstab_loop_sources:
  "disk_sources (trace (fstab_loop K E recs s)) =
     disk_sources (trace s) @
     map (\<lambda>r. DiskSource (blk_device r) (label r) (partnum r)
           ((if fs_mgr_is_encryptable r then kAdoptable K else 0)
            OR (if fs_mgr_is_noemulatedsd r \<or> default_primary_prop E then kDefaultPrimary K else 0)
            OR (if fs_mgr_is_nonremovable r then kNonRemovable K else 0))
           (case fs_type r of None \<Rightarrow> [] | Some t \<Rightarrow> t)
           (case fs_options r of None \<Rightarrow> [] | Some t \<Rightarrow> t))
         (filter fs_mgr_is_voldmanaged recs)"
proof (induction recs arbitrary: s)
  case Nil
  then show ?case by simp
next
  case (Cons r rs)
  show ?case
    by (simp only: fstab_loop.simps Cons.IH fstab_entry_sources) simp
qed

lemma fstab_loop_adoptable:
  "has_adoptable (fstab_loop K E recs s) =
     (has_adoptable s \<or> (\<exists>r \<in> set recs. fs_mgr_is_voldmanaged r \<and> fs_mgr_is_encryptable r))"
  by (induction recs arbitrary: s) (auto simp: fstab_entry_adoptable)

lemma scan_cmdline_effect:
  "\<exists>rest. length rest \<le> 1
      \<and> disk_sources (trace (snd (scan_cmdline K E s))) = disk_sources (trace s) @ rest
      \<and> has_adoptable (snd (scan_cmdline K E s)) = (has_adoptable s \<or> rest \<noteq> [])"
  by (auto simp: scan_cmdline_def emit_def disk_sources_append Let_def
           split: option.splits sum.splits prod.splits)

lemma process_config_snd:
  "read_fstab E = Some recs \<Longrightarrow>
     snd (process_config K E s) =
       snd (scan_cmdline K E (fstab_loop K E recs (s\<lparr>has_adoptable := False\<rparr>)))"
  by (simp add: process_config_def Let_def split: prod.splits sum.splits)

text \<open>
  C4: when the fstab loads, the rules handed over are, in the order of the table, one for
  each record marked vold-managed and none for the others, followed by at most one rule
  from the command line. The flags of a rule are Adoptable if the record is encryptable,
  DefaultPrimary if it has no emulated storage or the debug property is set, and
  NonRemovable if it is non-removable; an encryptable vold-managed record makes the
  adoptable output true.
\<close>

theorem fstab_rules:
  assumes "read_fstab E = Some recs"
  shows "\<exists>rest. length rest \<le> 1
    \<and> disk_sources (trace (snd (process_config K E s))) =
        disk_sources (trace s) @
        map (\<lambda>r. DiskSource (blk_device r) (label r) (partnum r)
              ((if fs_mgr_is_encryptable r then kAdoptable K else 0)
               OR (if fs_mgr_is_noemulatedsd r \<or> default_primary_prop E
                   then kDefaultPrimary K else 0)
               OR (if fs_mgr_is_nonremovable r then kNonRemovable K else 0))
              (case fs_type r of None \<Rightarrow> [] | Some t \<Rightarrow> t)
              (case fs_options r of None \<Rightarrow> [] | Some t \<Rightarrow> t))
            (filter fs_mgr_is_voldmanaged recs) @ rest
    \<and> has_adoptable (snd (process_config K E s)) =
        ((\<exists>r \<in> set recs. fs_mgr_is_voldmanaged r \<and> fs_mgr_is_encryptable r) \<or> rest \<noteq> [])"
proof -
  let ?s2 = "fstab_loop K E recs (s\<lparr>has_adoptable := False\<rparr>)"
  from scan_cmdline_effect [of K E ?s2] obtain rest where
    r: "length rest \<le> 1"
      "disk_sources (trace (snd (scan_cmdline K E ?s2))) = disk_sources (trace ?s2) @ rest"
      "has_adoptable (snd (scan_cmdline K E ?s2)) = (has_adoptable ?s2 \<or> rest \<noteq> [])"
    by blast
  have "disk_sources (trace (snd (process_config K E s))) = disk_sources (trace ?s2) @ rest"
    using r(2) process_config_snd [OF assms] by simp
  moreover have "has_adoptable (snd (process_config K E s)) = (has_adoptable ?s2 \<or> rest \<noteq> [])"
    using r(3) process_config_snd [OF assms] by simp
  ultimately show ?thesis
    using r(1) by (intro exI [of _ rest]) (simp add: fstab_loop_sources fstab_loop_adoptable)
qed


theorem fstab_rules_witness:
  "read_fstab cfg_no_token = Some example_fstab
   \<and> disk_sources (trace (snd (process_config example_flags cfg_no_token garbage_true)))
       = [DiskSource ''/devices/*/usb*'' ''usbdisk'' (- 1) 33 ''auto'' []]
   \<and> has_adoptable (snd (process_config example_flags cfg_no_token garbage_true))"
proof -
  have h: "read_fstab cfg_no_token = Some example_fstab"
    by (simp add: cfg_no_token_def cfg_example_def)
  have d: "default_primary_prop cfg_no_token = False"
    by (simp add: cfg_no_token_def cfg_example_def cfg_no_fstab_def)
  have s: "disk_sources (trace (snd (process_config example_flags cfg_no_token garbage_true))) =
             [DiskSource ''/devices/*/usb*'' ''usbdisk'' (- 1) 33 ''auto'' []]"
    by (simp add: process_config_def scan_cmdline_def cfg_no_token_def cfg_example_def
          cfg_no_fstab_def example_fstab_def example_flags_def garbage_true_def
          fstab_entry_def emit_def Let_def)
  from fstab_rules [OF h, of example_flags garbage_true] obtain rest where
    "has_adoptable (snd (process_config example_flags cfg_no_token garbage_true)) =
       ((\<exists>r \<in> set example_fstab. fs_mgr_is_voldmanaged r \<and> fs_mgr_is_encryptable r) \<or> rest \<noteq> [])"
    by blast
  then have "has_adoptable (snd (process_config example_flags cfg_no_token garbage_true))"
    by (simp add: example_fstab_def)
  with h s show ?thesis by blast
qed




text \<open>
  C10: when the fstab does not load, \<^verbatim>\<open>process_config\<close> returns -1 at once: the
  variable behind \<^verbatim>\<open>has_adoptable\<close> keeps the value it had, no rule is handed over, and
  neither the command line nor the file system is looked at, whatever they hold.
\<close>

theorem fstab_failure_returns_early:
  assumes "read_fstab E = None"
  shows "\<exists>s'. process_config K E s = (Inr (- 1), s')
           \<and> has_adoptable s' = has_adoptable s
           \<and> disk_sources (trace s') = disk_sources (trace s)
           \<and> (\<forall>c a. process_config K (E\<lparr>read_cmdline := c, access_X_OK := a\<rparr>) s
                      = (Inr (- 1), s'))"
  using assms by (simp add: process_config_def emit_def disk_sources_append)


theorem fstab_failure_returns_early_witness:
  "read_fstab cfg_no_fstab = None
   \<and> str_find (the (read_cmdline cfg_no_fstab)) ''SDCARD='' = Some 6
   \<and> (\<exists>s'. process_config example_flags cfg_no_fstab garbage_true = (Inr (- 1), s')
           \<and> has_adoptable s' \<and> disk_sources (trace s') = [])"
proof -
  have h: "read_fstab cfg_no_fstab = None" by (simp add: cfg_no_fstab_def)
  have c: "str_find (the (read_cmdline cfg_no_fstab)) ''SDCARD='' = Some 6"
    by (simp add: cfg_no_fstab_def)
  from fstab_failure_returns_early [OF h, of example_flags garbage_true]
  obtain s' where "process_config example_flags cfg_no_fstab garbage_true = (Inr (- 1), s')"
    and "has_adoptable s' = has_adoptable garbage_true"
    and "disk_sources (trace s') = disk_sources (trace garbage_true)"
    by blast
  then have "\<exists>s'. process_config example_flags cfg_no_fstab garbage_true = (Inr (- 1), s')
           \<and> has_adoptable s' \<and> disk_sources (trace s') = []"
    by (simp add: garbage_true_def)
  with h c show ?thesis by blast
qed

subsection \<open>The coldboot walk\<close>

lemma readdir_loop_append:
  "readdir_loop p (xs @ ys) lvl = readdir_loop p xs lvl @ readdir_loop p ys lvl"
  by (induction xs) (auto split: opened.splits)


lemma readdir_loop_Cons:
  "readdir_loop p (e # es) lvl = readdir_loop p [e] lvl @ readdir_loop p es lvl"
  using readdir_loop_append [of p "[e]" es lvl] by simp

lemma mset_readdir_loop:
  "mset (readdir_loop p es lvl) = (\<Sum>e \<in># mset es. mset (readdir_loop p [e] lvl))"
proof (induction es)
  case Nil
  then show ?case by simp
next
  case (Cons e es)
  have "mset (readdir_loop p (e # es) lvl)
          = mset (readdir_loop p [e] lvl) + mset (readdir_loop p es lvl)"
    by (subst readdir_loop_Cons) (simp only: mset_append)
  also have "\<dots> = mset (readdir_loop p [e] lvl) + (\<Sum>e \<in># mset es. mset (readdir_loop p [e] lvl))"
    by (simp only: Cons.IH)
  also have "\<dots> = (\<Sum>x \<in># mset (e # es). mset (readdir_loop p [x] lvl))"
    by simp
  finally show ?case .
qed

lemma readdir_loop_perm:
  assumes "mset xs = mset ys"
  shows "mset (readdir_loop p xs lvl) = mset (readdir_loop p ys lvl)"
proof -
  have "mset (readdir_loop p xs lvl) = (\<Sum>e \<in># mset xs. mset (readdir_loop p [e] lvl))"
    by (rule mset_readdir_loop)
  also have "\<dots> = (\<Sum>e \<in># mset ys. mset (readdir_loop p [e] lvl))"
    by (simp only: assms)
  also have "\<dots> = mset (readdir_loop p ys lvl)"
    by (rule mset_readdir_loop [symmetric])
  finally show ?thesis .
qed

lemma reorder_mset:
  "(\<forall>es. mset (f es) = mset es) \<Longrightarrow>
     mset (do_coldboot p (reorder f d) lvl) = mset (do_coldboot p d lvl)"
  "(\<forall>es. mset (f es) = mset es) \<Longrightarrow>
     mset (readdir_loop p (reorder_entries f es) lvl) = mset (readdir_loop p es lvl)"
proof (induction f d and f es arbitrary: p lvl and p lvl rule: reorder_reorder_entries.induct)
  case (1 f u es)
  have "mset (f (reorder_entries f es)) = mset (reorder_entries f es)"
    using "1.prems" by blast
  then have "mset (readdir_loop p (f (reorder_entries f es)) lvl)
               = mset (readdir_loop p (reorder_entries f es) lvl)"
    by (rule readdir_loop_perm)
  with "1.IH" [OF "1.prems"] show ?case by simp
next
  case (2 f)
  then show ?case by simp
next
  case (3 f n ty r es)
  have tl: "mset (readdir_loop p (reorder_entries f es) l) = mset (readdir_loop p es l)" for l
    using "3.IH"(2) [OF "3.prems"] .
  show ?case
  proof (cases r)
    case Openat_fails
    then show ?thesis by (simp add: tl)
  next
    case Fdopendir_fails
    then show ?thesis by (simp add: tl)
  next
    case (Opened d2)
    have "mset (do_coldboot (p @ [n]) (reorder f d2) l) = mset (do_coldboot (p @ [n]) d2 l)" for l
      using "3.IH"(1) [OF Opened "3.prems"] .
    with Opened show ?thesis by (simp add: tl)
  qed
qed













text \<open>
  C8: two walks of the same device tree that differ only in the order in which
  \<^verbatim>\<open>readdir\<close> returns the entries of each directory make the same calls, each as often,
  in another order; the sets of the uevent files opened and written are the same.
\<close>

theorem coldboot_targets_stable:
  assumes "\<forall>es. mset (f es) = mset es"
  shows "mset (coldboot (Some (reorder f d))) = mset (coldboot (Some d))
       \<and> write_targets (coldboot (Some (reorder f d))) = write_targets (coldboot (Some d))
       \<and> visited (coldboot (Some (reorder f d))) = visited (coldboot (Some d))"
proof -
  have m: "mset (coldboot (Some (reorder f d))) = mset (coldboot (Some d))"
    using reorder_mset(1) [OF assms] by (simp add: coldboot_def)
  then have "set (coldboot (Some (reorder f d))) = set (coldboot (Some d))"
    by (rule mset_eq_setD)
  with m show ?thesis by (simp add: write_targets_def visited_def)
qed

theorem coldboot_targets_stable_witness:
  "coldboot (Some (reorder rev example_tree)) \<noteq> coldboot (Some example_tree)
   \<and> write_targets (coldboot (Some (reorder rev example_tree)))
       = write_targets (coldboot (Some example_tree))
   \<and> [''sda'', ''sda1''] \<in> write_targets (coldboot (Some example_tree))"
proof -
  have h: "\<forall>es :: dirent list. mset (rev es) = mset es" by simp
  have a: "coldboot (Some (reorder rev example_tree)) \<noteq> coldboot (Some example_tree)"
    by (simp add: coldboot_def example_tree_def example_entries_def example_sda_entries_def
          trigger_uevent_def dot_name_def)
  have b: "[''sda'', ''sda1''] \<in> write_targets (coldboot (Some example_tree))"
    by (auto simp: write_targets_def coldboot_def example_tree_def example_entries_def
          example_sda_entries_def trigger_uevent_def dot_name_def)
  from coldboot_targets_stable [OF h, of example_tree] a b show ?thesis by blast
qed

subsection \<open>The order of the bootstrap\<close>

lemma fstab_entry_no_uevents:
  "\<forall>e \<in> set (trace s). uevent_dir e = None \<Longrightarrow>
     \<forall>e \<in> set (trace (fstab_entry K E r s)). uevent_dir e = None"
  by (simp add: fstab_entry_def emit_def Let_def)

lemma fstab_loop_no_uevents:
  "\<forall>e \<in> set (trace s). uevent_dir e = None \<Longrightarrow>
     \<forall>e \<in> set (trace (fstab_loop K E recs s)). uevent_dir e = None"
proof (induction recs arbitrary: s)
  case Nil
  then show ?case by simp
next
  case (Cons r rs)
  from Cons.prems have "\<forall>e \<in> set (trace (fstab_entry K E r s)). uevent_dir e = None"
    by (rule fstab_entry_no_uevents)
  then show ?case using Cons.IH by simp
qed

lemma scan_cmdline_no_uevents:
  "\<forall>e \<in> set (trace s). uevent_dir e = None \<Longrightarrow>
     \<forall>e \<in> set (trace (snd (scan_cmdline K E s))). uevent_dir e = None"
  by (auto simp: scan_cmdline_def emit_def Let_def split: option.splits sum.splits prod.splits)

lemma process_config_no_uevents:
  assumes "\<forall>e \<in> set (trace s). uevent_dir e = None"
  shows "\<forall>e \<in> set (trace (snd (process_config K E s))). uevent_dir e = None"
proof (cases "read_fstab E")
  case None
  with assms show ?thesis by (simp add: process_config_def emit_def)
next
  case (Some recs)
  have "\<forall>e \<in> set (trace (fstab_loop K E recs (s\<lparr>has_adoptable := False\<rparr>))). uevent_dir e = None"
    using assms by (intro fstab_loop_no_uevents) simp
  then have "\<forall>e \<in> set (trace (snd (scan_cmdline K E
                (fstab_loop K E recs (s\<lparr>has_adoptable := False\<rparr>))))). uevent_dir e = None"
    by (rule scan_cmdline_no_uevents)
  then show ?thesis by (simp only: process_config_snd [OF Some])
qed

lemma disk_sources_walk:
  "disk_sources (do_coldboot p d lvl) = []"
  "disk_sources (readdir_loop p es lvl) = []"
proof (induction p d lvl and p es lvl rule: do_coldboot_readdir_loop.induct)
  case (1 p u es lvl)
  then show ?case
    by (cases u) (simp_all add: trigger_uevent_def disk_sources_append)
next
  case (2 p lvl)
  then show ?case by simp
next
  case (3 p n ty r es lvl)
  then show ?case by (cases r) (simp_all add: disk_sources_append)
qed

lemma disk_sources_coldboot: "disk_sources (coldboot od) = []"
  by (cases od) (simp_all add: coldboot_def disk_sources_walk)

lemma disk_sources_Nil_mem: "disk_sources es = [] \<Longrightarrow> x \<in> set es \<Longrightarrow> x \<noteq> AddDiskSource r"
  by (induction es rule: disk_sources.induct) auto

lemma adds_before_uevents_append:
  "\<forall>e \<in> set xs. uevent_dir e = None \<Longrightarrow>
     adds_before_uevents (xs @ ys) = adds_before_uevents ys"
  by (induction xs) simp_all

lemma adds_before_uevents_no_add: "disk_sources ys = [] \<Longrightarrow> adds_before_uevents ys"
proof (induction ys)
  case Nil
  then show ?case by simp
next
  case (Cons e es)
  then show ?case by (cases e) simp_all
qed

lemma adds_before_uevents_nth:
  "adds_before_uevents tr \<Longrightarrow> i < j \<Longrightarrow> j < length tr \<Longrightarrow> uevent_dir (tr ! i) \<noteq> None
     \<Longrightarrow> tr ! j \<noteq> AddDiskSource r"
proof (induction tr arbitrary: i j)
  case Nil
  then show ?case by simp
next
  case (Cons e es)
  from Cons.prems(2) obtain j' where j: "j = Suc j'" by (cases j) auto
  show ?case
  proof (cases "uevent_dir e = None")
    case True
    with Cons.prems(4) obtain i' where i: "i = Suc i'" by (cases i) auto
    from True Cons.prems(1) have "adds_before_uevents es" by simp
    from Cons.IH [OF this, of i' j'] Cons.prems(2,3,4) i j show ?thesis by simp
  next
    case False
    with Cons.prems(1) have "disk_sources es = []" by simp
    moreover from Cons.prems(3) j have "es ! j' \<in> set es" by simp
    ultimately have "es ! j' \<noteq> AddDiskSource r" by (rule disk_sources_Nil_mem)
    with j show ?thesis by simp
  qed
qed

lemma vold_main_adds_before_uevents: "adds_before_uevents (snd (vold_main K B))"
proof -
  let ?t0 = "[LOG INFO [Str ''Vold 3.0 (the awakening) firing up''],
              LOG VERBOSE [Str ''Detected support for:'', supported B ''exfat'',
                           supported B ''ext4'', supported B ''f2fs'',
                           supported B ''iso9660'', supported B ''ntfs'',
                           supported B ''vfat'']]"
  let ?t2 = "(if vold_debug_prop B then ?t0 @ [SetDebug True] else ?t0) @ [VmStart]"
  let ?s0 = "\<lparr>has_adoptable = stack_has_adoptable B, trace = ?t2\<rparr>"
  obtain res s where pc: "process_config K (config B) ?s0 = (res, s)"
    by (cases "process_config K (config B) ?s0") blast
  have "\<forall>e \<in> set (trace ?s0). uevent_dir e = None" by simp
  from process_config_no_uevents [OF this, of K "config B"] pc
  have nu: "\<forall>e \<in> set (trace s). uevent_dir e = None" by simp
  have tail: "adds_before_uevents (trace s @ xs)" if "disk_sources xs = []" for xs
    using that by (simp add: adds_before_uevents_append [OF nu] adds_before_uevents_no_add)
  have nil: "adds_before_uevents (trace s)"
    using tail [of "[]"] by simp
  show ?thesis
    unfolding vold_main_def Let_def
    by (simp add: pc nil tail disk_sources_append disk_sources_coldboot split: sum.splits)
qed

text \<open>
  C9: in the trace of \<^verbatim>\<open>vold_main\<close>, whatever the environment, no call of
  \<^verbatim>\<open>addDiskSource\<close> comes after a call of the coldboot walk on a uevent file.
\<close>

theorem rules_registered_before_coldboot:
  assumes "i < j" and "j < length (snd (vold_main K B))"
    and "uevent_dir (snd (vold_main K B) ! i) \<noteq> None"
  shows "\<forall>r. snd (vold_main K B) ! j \<noteq> AddDiskSource r"
  using adds_before_uevents_nth [OF vold_main_adds_before_uevents assms] by blast

lemma boot_example_trace:
  "snd (vold_main example_flags boot_example) =
     [LOG INFO [Str ''Vold 3.0 (the awakening) firing up''],
      LOG VERBOSE [Str ''Detected support for:'', Str '' exfat'', Str '' ext4'',
                   Str '' f2fs'', Str '' iso9660'', Str '' ntfs'', Str '' vfat''],
      VmStart,
      AddDiskSource (DiskSource ''/devices/*/usb*'' ''usbdisk'' (- 1) 33 ''auto'' []),
      AddDiskSource (DiskSource ''/devices/*/sda'' ''sda'' 1 1 ''auto'' []),
      LOG INFO [Str ''Add SDCARD='', Str ''sda'', Str '' partnum='', Num 1],
      NmStart,
      Openat_uevent [] False, Openat_uevent [''sda''] True, Write_uevent [''sda''] add_nl True,
      Openat_uevent [''sda'', ''sda1''] True, Write_uevent [''sda'', ''sda1''] add_nl False,
      Openat_uevent [''sr0''] True, Write_uevent [''sr0''] add_nl True,
      StartListener CommandListener, StartListener CryptCommandListener,
      Property_set ''vold.has_adoptable'' ''1'']"
  by (simp add: vold_main_def boot_example_def all_supported_def supported_def
        process_config_def scan_cmdline_def cfg_example_def cfg_no_fstab_def example_fstab_def
        example_flags_def fstab_entry_def emit_def eval_normalize nothing_accessible_def
        coldboot_def example_tree_def example_entries_def example_sda_entries_def
        trigger_uevent_def dot_name_def add_nl_def Let_def)

theorem rules_registered_before_coldboot_witness:
  "uevent_dir (snd (vold_main example_flags boot_example) ! 7) = Some []
   \<and> length (snd (vold_main example_flags boot_example)) = 17
   \<and> disk_sources (snd (vold_main example_flags boot_example)) =
        [DiskSource ''/devices/*/usb*'' ''usbdisk'' (- 1) 33 ''auto'' [],
         DiskSource ''/devices/*/sda'' ''sda'' 1 1 ''auto'' []]
   \<and> snd (vold_main example_flags boot_example) ! 8
        \<noteq> AddDiskSource (DiskSource ''/devices/*/sda'' ''sda'' 1 1 ''auto'' [])"
proof -
  have a: "uevent_dir (snd (vold_main example_flags boot_example) ! 7) = Some []"
    by (simp add: boot_example_trace)
  have l: "length (snd (vold_main example_flags boot_example)) = 17"
    by (simp add: boot_example_trace)
  have d: "disk_sources (snd (vold_main example_flags boot_example)) =
        [DiskSource ''/devices/*/usb*'' ''usbdisk'' (- 1) 33 ''auto'' [],
         DiskSource ''/devices/*/sda'' ''sda'' 1 1 ''auto'' []]"
    by (simp add: boot_example_trace)
  have "(7::nat) < 8" "8 < length (snd (vold_main example_flags boot_example))"
    "uevent_dir (snd (vold_main example_flags boot_example) ! 7) \<noteq> None"
    using a l by simp_all
  from rules_registered_before_coldboot [OF this] a l d show ?thesis by blast
qed

text \<open>
  C1, at a failing fstab with a caller's variable that happens to hold \<open>True\<close>: no rule
  is handed over, the error is logged and the bootstrap goes on to the end, but the
  adoptable output is not set to false: \<^verbatim>\<open>process_config\<close> leaves it as it was, and
  \<^verbatim>\<open>vold_main\<close> publishes \<^verbatim>\<open>vold.has_adoptable\<close> as 1.
\<close>

theorem fstab_failure_publishes_stale_has_adoptable:
  "read_fstab (config boot_no_fstab) = None
   \<and> stack_has_adoptable boot_no_fstab
   \<and> fst (vold_main example_flags boot_no_fstab) = Monitoring
   \<and> disk_sources (snd (vold_main example_flags boot_no_fstab)) = []
   \<and> PLOG ERROR [Str ''Error reading configuration... continuing anyways'']
        \<in> set (snd (vold_main example_flags boot_no_fstab))
   \<and> has_adoptable (snd (process_config example_flags (config boot_no_fstab)
                           \<lparr>has_adoptable = True, trace = []\<rparr>))
   \<and> last (snd (vold_main example_flags boot_no_fstab)) = Property_set ''vold.has_adoptable'' ''1''"
  by (simp add: vold_main_def boot_no_fstab_def boot_example_def all_supported_def supported_def
        process_config_def cfg_no_fstab_def emit_def
        coldboot_def example_tree_def example_entries_def example_sda_entries_def
        trigger_uevent_def dot_name_def add_nl_def Let_def)

end
